theory Spec2Isabelle
  imports Main "HOL-Library.Multiset"
begin

section \<open>JavaScript values and MarkdownV2 escaping\<close>

text \<open>
  A JavaScript string is modelled as a \<^typ>\<open>string\<close> holding its UTF-8 bytes. Every character
  the escaping regular expressions name is ASCII, and an ASCII byte never occurs inside a
  multi-byte UTF-8 sequence, so replacing per byte is replacing per character.

  The values \<open>escapeMarkdown\<close> can be handed: \<open>null\<close>, \<open>undefined\<close>, a string, or (by a caller
  that forgets \<open>String(...)\<close>) a number, on which \<open>text.replace\<close> is not a function.
\<close>

datatype jsval = JNull | JUndefined | JStr string | JNum int

datatype js_error = TypeError

fun falsy :: "jsval \<Rightarrow> bool" where
  "falsy JNull = True"
| "falsy JUndefined = True"
| "falsy (JStr s) = (s = [])"
| "falsy (JNum n) = (n = 0)"

definition backslash :: char where
  "backslash = CHR 0x5C"

definition backtick :: char where
  "backtick = CHR 0x60"

text \<open>The character class of \<open>src/bot.js\<close>, line 72: \<^verbatim>\<open>[_*\[\]()~`>#+\-=|{}.!\\]\<close>.\<close>

definition md_class :: "char list" where
  "md_class = ''_*[]()~'' @ [backtick] @ ''>#+-=|{}.!'' @ [backslash]"

text \<open>The character class of \<open>src/unnamed/part_001\<close>, line 28: \<^verbatim>\<open>[_*()~`>#+\-=|{}.!\\]\<close>.\<close>

definition md_class_part001 :: "char list" where
  "md_class_part001 = ''_*()~'' @ [backtick] @ ''>#+-=|{}.!'' @ [backslash]"

text \<open>\<^verbatim>\<open>text.replace(/([...])/g, "\\$1")\<close>: every character of the class gets a backslash
  in front of it, every other character is copied.\<close>

fun replace_class :: "char list \<Rightarrow> string \<Rightarrow> string" where
  "replace_class cls [] = []"
| "replace_class cls (c # cs) =
     (if c \<in> set cls then backslash # c # replace_class cls cs
      else c # replace_class cls cs)"

definition escapeMarkdown :: "jsval \<Rightarrow> js_error + string" where
  "escapeMarkdown text =
     (if falsy text then Inr []
      else case text of
             JStr s \<Rightarrow> Inr (replace_class md_class s)
           | _ \<Rightarrow> Inl TypeError)"

definition escapeMarkdown_part001 :: "jsval \<Rightarrow> js_error + string" where
  "escapeMarkdown_part001 text =
     (if falsy text then Inr []
      else case text of
             JStr s \<Rightarrow> Inr (replace_class md_class_part001 s)
           | _ \<Rightarrow> Inl TypeError)"

text \<open>The handlers call \<open>escapeMarkdown\<close> on strings only; \<open>escape_text\<close> is that call with the
  result taken out of the sum (the empty string where the call would have thrown, which
  \<open>escapeMarkdown_JStr\<close> below shows never happens).\<close>

definition escape_text :: "string \<Rightarrow> string" where
  "escape_text s = (case escapeMarkdown (JStr s) of Inr t \<Rightarrow> t | Inl _ \<Rightarrow> [])"

definition escape_text_part001 :: "string \<Rightarrow> string" where
  "escape_text_part001 s = (case escapeMarkdown_part001 (JStr s) of Inr t \<Rightarrow> t | Inl _ \<Rightarrow> [])"

text \<open>
  The target renderer is Telegram's MarkdownV2. Its rule, from the Bot API's formatting
  options: the characters \<^verbatim>\<open>_ * [ ] ( ) ~ ` > # + - = | { } . !\<close> must be escaped with a
  preceding backslash wherever they are not markup, and a backslash escapes the character
  after it, so a literal backslash is written as two.
\<close>

definition mdv2_reserved :: "char list" where
  "mdv2_reserved = ''_*[]()~'' @ [backtick] @ ''>#+-=|{}.!'' @ [backslash]"

text \<open>A text is safe when, read left to right with a backslash taking the next character
  with it, no reserved character is left standing alone.\<close>

fun mdv2_safe :: "string \<Rightarrow> bool" where
  "mdv2_safe [] = True"
| "mdv2_safe [c] = (c \<notin> set mdv2_reserved)"
| "mdv2_safe (c # d # cs) =
     (if c = backslash then mdv2_safe cs
      else c \<notin> set mdv2_reserved \<and> mdv2_safe (d # cs))"

section \<open>Time: epoch milliseconds, the calendar and Asia/Yangon\<close>

text \<open>
  A timestamp is the number of milliseconds since 1970-01-01T00:00:00Z, which is what
  \<open>toISOString()\<close> writes into \<open>received_at\<close> and what \<open>moment(r.received_at)\<close> reads back.
  The calendar behind moment is JavaScript's \<open>Date\<close>; its day arithmetic is taken from
  ECMA-262 (Day Number and Time within Day, Year Number, Month Number, Date Number), with
  \<open>YearFromDay\<close> computing the year the standard characterises as the largest \<open>y\<close> with
  \<open>DayFromYear y \<le> day\<close> (lemmas \<open>YearFromDay_lower\<close>, \<open>YearFromDay_upper\<close> and
  \<open>YearFromDay_unique\<close> below). \<open>InLeapYear\<close> is 1 in a leap year and 0 otherwise; months
  are numbered from 0 in \<open>month_start\<close>, \<open>MonthFromDay\<close> and \<open>MakeDay\<close>, as in the standard.
\<close>

definition msPerDay :: int where "msPerDay = 86400000"

definition DayFromYear :: "int \<Rightarrow> int" where
  "DayFromYear y = 365 * (y - 1970) + (y - 1969) div 4 - (y - 1901) div 100 + (y - 1601) div 400"

definition InLeapYear :: "int \<Rightarrow> int" where
  "InLeapYear y = (if y mod 4 = 0 \<and> (y mod 100 \<noteq> 0 \<or> y mod 400 = 0) then 1 else 0)"

definition DaysInYear :: "int \<Rightarrow> int" where
  "DaysInYear y = 365 + InLeapYear y"

definition YearFromDay :: "int \<Rightarrow> int" where
  "YearFromDay d =
     (let g = 1970 + (400 * d) div 146097
      in if DayFromYear (g + 1) \<le> d then g + 1
         else if DayFromYear g \<le> d then g
         else g - 1)"

definition month_start :: "int \<Rightarrow> int \<Rightarrow> int" where
  "month_start L m =
     [0, 31, 59 + L, 90 + L, 120 + L, 151 + L, 181 + L, 212 + L, 243 + L, 273 + L,
      304 + L, 334 + L, 365 + L] ! nat m"

definition MonthFromDay :: "int \<Rightarrow> int \<Rightarrow> int" where
  "MonthFromDay L dw =
     (if dw < 31 then 0
      else if dw < 59 + L then 1
      else if dw < 90 + L then 2
      else if dw < 120 + L then 3
      else if dw < 151 + L then 4
      else if dw < 181 + L then 5
      else if dw < 212 + L then 6
      else if dw < 243 + L then 7
      else if dw < 273 + L then 8
      else if dw < 304 + L then 9
      else if dw < 334 + L then 10
      else 11)"

definition DateFromDay :: "int \<Rightarrow> int \<Rightarrow> int" where
  "DateFromDay L dw = dw - month_start L (MonthFromDay L dw) + 1"

definition DaysInMonth :: "int \<Rightarrow> int \<Rightarrow> int" where
  "DaysInMonth L m = month_start L (m + 1) - month_start L m"

definition MakeDay :: "int \<Rightarrow> int \<Rightarrow> int \<Rightarrow> int" where
  "MakeDay y m d = DayFromYear y + month_start (InLeapYear y) m + d - 1"

type_synonym civil = "int \<times> int \<times> int"

definition civil_from_day :: "int \<Rightarrow> civil" where
  "civil_from_day n =
     (let y = YearFromDay n; L = InLeapYear y; dw = n - DayFromYear y
      in (y, MonthFromDay L dw + 1, DateFromDay L dw))"

definition valid_date :: "civil \<Rightarrow> bool" where
  "valid_date c = (case c of (y, m, d) \<Rightarrow>
     1 \<le> m \<and> m \<le> 12 \<and> 1 \<le> d \<and> d \<le> DaysInMonth (InLeapYear y) (m - 1))"

text \<open>
  Asia/Yangon has been at UTC+06:30, without daylight saving, since May 1945; the model fixes
  that offset, so it describes the timestamps a running bot can produce or be asked about
  (the two-digit years moment accepts are 1969 to 2068).
\<close>

definition tz_offset :: int where
  "tz_offset = 23400000"

definition local_day :: "int \<Rightarrow> int" where
  "local_day t = (t + tz_offset) div msPerDay"

definition local_date :: "int \<Rightarrow> civil" where
  "local_date t = civil_from_day (local_day t)"

definition digit :: "int \<Rightarrow> char" where
  "digit n = ''0123456789'' ! nat n"

text \<open>moment's zero fill to two places, for the numbers 0 to 99 the formats below give it.\<close>

definition pad2 :: "int \<Rightarrow> string" where
  "pad2 n = [digit (n div 10 mod 10), digit (n mod 10)]"

text \<open>\<^verbatim>\<open>moment(t).tz("Asia/Yangon").format("DD/MM/YY")\<close>\<close>

definition format_DDMMYY :: "int \<Rightarrow> string" where
  "format_DDMMYY t =
     (case local_date t of (y, m, d) \<Rightarrow> pad2 d @ ''/'' @ pad2 m @ ''/'' @ pad2 (y mod 100))"

text \<open>\<^verbatim>\<open>format("DD/MM/YY HH:mm:ss")\<close>\<close>

definition format_DDMMYY_HHmmss :: "int \<Rightarrow> string" where
  "format_DDMMYY_HHmmss t =
     (let s = ((t + tz_offset) mod msPerDay) div 1000
      in format_DDMMYY t @ '' '' @ pad2 (s div 3600) @ '':'' @ pad2 (s div 60 mod 60)
           @ '':'' @ pad2 (s mod 60))"

definition digit_val :: "char \<Rightarrow> int option" where
  "digit_val = map_of (zip ''0123456789'' [0, 1, 2, 3, 4, 5, 6, 7, 8, 9])"

definition two_digits :: "char \<Rightarrow> char \<Rightarrow> int option" where
  "two_digits a b =
     (case digit_val a of None \<Rightarrow> None
      | Some x \<Rightarrow> (case digit_val b of None \<Rightarrow> None | Some y \<Rightarrow> Some (10 * x + y)))"

text \<open>moment's \<open>parseTwoDigitYear\<close>: \<^verbatim>\<open>toInt(input) + (toInt(input) > 68 ? 1900 : 2000)\<close>.\<close>

definition parseTwoDigitYear :: "int \<Rightarrow> int" where
  "parseTwoDigitYear yy = yy + (if yy > 68 then 1900 else 2000)"

text \<open>
  \<^verbatim>\<open>moment.tz(dateStr, "DD/MM/YY", "Asia/Yangon")\<close>, for the keys the date listing writes on its
  buttons: two digits, a slash, two digits, a slash, two digits. \<open>None\<close> is moment's invalid
  date, which a day or month out of range gives. moment's forgiving parser also accepts
  other shapes (a one-digit day, another separator); those are outside this model and are
  taken as invalid here.
\<close>

definition parse_DDMMYY :: "string \<Rightarrow> civil option" where
  "parse_DDMMYY s =
     (if length s = 8 \<and> s ! 2 = CHR ''/'' \<and> s ! 5 = CHR ''/'' then
        (case two_digits (s ! 0) (s ! 1) of None \<Rightarrow> None
         | Some d \<Rightarrow>
        (case two_digits (s ! 3) (s ! 4) of None \<Rightarrow> None
         | Some m \<Rightarrow>
        (case two_digits (s ! 6) (s ! 7) of None \<Rightarrow> None
         | Some yy \<Rightarrow>
            (if valid_date (parseTwoDigitYear yy, m, d)
             then Some (parseTwoDigitYear yy, m, d) else None))))
      else None)"

text \<open>\<^verbatim>\<open>.startOf("day")\<close> and \<^verbatim>\<open>.endOf("day")\<close> of a local date, as epoch milliseconds: local
  midnight, and the last millisecond (23:59:59.999) of the same local day.\<close>

definition startOf_day :: "civil \<Rightarrow> int" where
  "startOf_day c = (case c of (y, m, d) \<Rightarrow> MakeDay y (m - 1) d * msPerDay - tz_offset)"

definition endOf_day :: "civil \<Rightarrow> int" where
  "endOf_day c = startOf_day c + msPerDay - 1"

text \<open>\<^verbatim>\<open>String(n)\<close> for an integer.\<close>

fun dec_nat :: "nat \<Rightarrow> string" where
  "dec_nat n = (if n < 10 then [digit (int n)] else dec_nat (n div 10) @ [digit (int (n mod 10))])"

declare dec_nat.simps [simp del]

definition String_int :: "int \<Rightarrow> string" where
  "String_int n = (if n < 0 then ''-'' @ dec_nat (nat (- n)) else dec_nat (nat n))"

text \<open>\<^verbatim>\<open>x || ""\<close> for a string that may be missing.\<close>

definition or_empty :: "string option \<Rightarrow> string" where
  "or_empty x = (case x of None \<Rightarrow> [] | Some s \<Rightarrow> s)"

text \<open>Truthiness of a string that may be missing: \<open>null\<close>, \<open>undefined\<close> and \<open>""\<close> are falsy.\<close>

definition truthy :: "string option \<Rightarrow> bool" where
  "truthy x = (case x of None \<Rightarrow> False | Some s \<Rightarrow> s \<noteq> [])"

text \<open>\<^verbatim>\<open>text.split(" ")\<close> and \<^verbatim>\<open>.join(" ")\<close>.\<close>

fun split_on :: "char \<Rightarrow> string \<Rightarrow> string list" where
  "split_on c [] = [[]]"
| "split_on c (x # xs) =
     (if x = c then [] # split_on c xs
      else (case split_on c xs of [] \<Rightarrow> [[x]] | w # ws \<Rightarrow> (x # w) # ws))"

fun join_with :: "char \<Rightarrow> string list \<Rightarrow> string" where
  "join_with c [] = []"
| "join_with c [w] = w"
| "join_with c (w # v # ws) = w @ c # join_with c (v # ws)"

text \<open>\<^verbatim>\<open>ctx.message.text.split(" ").slice(1).join(" ")\<close>\<close>

definition command_args :: "string \<Rightarrow> string" where
  "command_args text = join_with CHR '' '' (drop 1 (split_on CHR '' '' text))"

section \<open>The bot of \<open>src/bot.js\<close>: settings and receipts in Supabase\<close>

text \<open>
  What the program reads and writes: the Telegram user of an update, a row of the
  \<open>receipts\<close> table (the columns of the insert at lines 256 to 264), and a photo message.
  A field Telegram or the table may leave out is an \<open>option\<close>.
\<close>

record tg_user =
  uid :: int
  u_first_name :: "string option"
  u_last_name :: "string option"
  u_username :: "string option"

record receipt =
  user_id :: int
  first_name :: "string option"
  last_name :: "string option"
  username :: "string option"
  receipt_file_id :: string
  receipt_caption :: "string option"
  received_at :: int

record photo_message =
  msg_from :: tg_user
  msg_photo :: "string list"
  msg_caption :: "string option"

text \<open>
  The fixed texts of the program (several are Burmese or carry emoji) are constructors; the
  parts computed from data are their arguments. A caption is kept as its computed fields:
  the lines of the template are fixed text around them.
\<close>

datatype parse_mode = Markdown | MarkdownV2

datatype caption_title = ReceiptInfo | NewReceipt | NewReceiptWithPhone

record caption_text =
  cap_title :: caption_title
  cap_name :: string
  cap_profile_id :: int
  cap_username :: string
  cap_user_id :: string
  cap_time :: string
  cap_user_caption :: "string option"

datatype reply_text =
    Usage
  | ConnectedSaved string
  | SaveFailed
  | DisconnectedUpdated
  | UpdateFailed
  | HelpText
  | NoReceiptsInDatabase
  | NoReceiptsFound
  | ChooseDate "(string \<times> string) list list"
  | ErrorFetchingDates
  | NoReceiptsFor string
  | ReceiptsHeader string nat
  | ErrorFetchingReceipts
  | Greeting
  | NotConnected
  | ErrorProcessing
  | Ack
  | Connected string
  | Disconnected

datatype log_tag =
    ErrorSavingConnection
  | ErrorInSaveConnection
  | ErrorFetchingReceiptDates
  | ErrorFetchingReceiptsByDate
  | ErrorSavingReceipt
  | ErrorForwardingPhoto
  | ErrorHandlingPhoto

text \<open>
  Every call a handler makes on the outside world, in the order it makes it: the Supabase
  queries, the file write of the file-backed variants, the Telegram calls and
  \<open>console.error\<close>. A handler's trace is the list of calls it issued; a call is in the
  trace whether or not it succeeded.
\<close>

datatype call =
    Upsert "string option"
  | SelectReceivedAt
  | SelectRange "int option" "int option"
  | Insert receipt
  | WriteFile "string option"
  | AnswerCbQuery string
  | Reply reply_text
  | ReplyWithPhoto string caption_text parse_mode
  | SendPhoto string string caption_text parse_mode
  | LogError log_tag

text \<open>
  What the outside world answers during one run of a handler: the clock, the result of the
  one Supabase query the handler makes (\<open>DbError\<close>: the promise resolves with \<open>error\<close> set;
  \<open>DbThrew\<close>: it rejects), the Telegram calls that throw (a call listed in \<open>tg_rejects\<close> throws
  whenever the handler makes it, any other call succeeds), and whether \<open>writeFileSync\<close>
  succeeds.
\<close>

datatype db_outcome = DbOk | DbError | DbThrew

record env =
  now :: int
  db :: db_outcome
  tg_rejects :: "call list"
  fs_ok :: bool

definition tg_ok :: "env \<Rightarrow> call \<Rightarrow> bool" where
  "tg_ok io c = (c \<notin> set (tg_rejects io))"

text \<open>A handler completes, or an exception leaves it (Telegraf then logs it). Either way
  the calls made and the state written so far stand.\<close>

datatype outcome = Completed | Threw

type_synonym 's result = "outcome \<times> call list \<times> 's"

definition outcome_of :: "'s result \<Rightarrow> outcome" where
  "outcome_of r = fst r"

definition calls_of :: "'s result \<Rightarrow> call list" where
  "calls_of r = fst (snd r)"

definition state_of :: "'s result \<Rightarrow> 's" where
  "state_of r = snd (snd r)"

text \<open>The outcome of a handler whose last act is the Telegram call \<open>c\<close>, not caught.\<close>

definition sent :: "env \<Rightarrow> call \<Rightarrow> outcome" where
  "sent io c = (if tg_ok io c then Completed else Threw)"

text \<open>
  The state: the module variable \<open>connectedGroupId\<close>, the row with id 1 of the \<open>settings\<close>
  table (\<open>None\<close>: no such row; \<open>Some None\<close>: its \<open>connected_group_id\<close> is null) and the
  \<open>receipts\<close> table in insertion order.
\<close>

record bot =
  connectedGroupId :: "string option"
  settings :: "string option option"
  receipts :: "receipt list"

text \<open>\<open>saveConnection\<close>, lines 51 to 67. A write that fails leaves the row as it was.\<close>

definition saveConnection :: "env \<Rightarrow> string option \<Rightarrow> bot \<Rightarrow> bool \<times> call list \<times> bot" where
  "saveConnection io groupId s =
     (case db io of
        DbError \<Rightarrow> (False, [Upsert groupId, LogError ErrorSavingConnection], s)
      | DbThrew \<Rightarrow> (False, [Upsert groupId, LogError ErrorInSaveConnection], s)
      | DbOk \<Rightarrow> (True, [Upsert groupId],
                  s\<lparr>settings := Some groupId, connectedGroupId := groupId\<rparr>))"

text \<open>The middleware \<open>isOwner\<close>, lines 76 to 82: \<open>next\<close> runs for the owner; for anyone else
  the middleware returns without calling it and without replying.\<close>

definition isOwner :: "int \<Rightarrow> int \<Rightarrow> ('s \<Rightarrow> 's result) \<Rightarrow> 's \<Rightarrow> 's result" where
  "isOwner OWNER_ID from_id next s = (if from_id = OWNER_ID then next s else (Completed, [], s))"

text \<open>\<^verbatim>\<open>bot.command("connectgp", isOwner, ...)\<close>, lines 86 to 98.\<close>

definition on_connectgp :: "int \<Rightarrow> env \<Rightarrow> int \<Rightarrow> string \<Rightarrow> bot \<Rightarrow> bot result" where
  "on_connectgp OWNER_ID io from_id text =
     isOwner OWNER_ID from_id (\<lambda>s.
       let args = command_args text in
       if args = [] then (sent io (Reply Usage), [Reply Usage], s)
       else case saveConnection io (Some args) s of (success, calls, s') \<Rightarrow>
         let r = Reply (if success then ConnectedSaved args else SaveFailed)
         in (sent io r, calls @ [r], s'))"

text \<open>\<^verbatim>\<open>bot.command("disconnect", isOwner, ...)\<close>, lines 100 to 107.\<close>

definition on_disconnect :: "int \<Rightarrow> env \<Rightarrow> int \<Rightarrow> bot \<Rightarrow> bot result" where
  "on_disconnect OWNER_ID io from_id =
     isOwner OWNER_ID from_id (\<lambda>s.
       case saveConnection io None s of (success, calls, s') \<Rightarrow>
         let r = Reply (if success then DisconnectedUpdated else UpdateFailed)
         in (sent io r, calls @ [r], s'))"

text \<open>\<^verbatim>\<open>bot.command("help", isOwner, ...)\<close>, lines 109 to 118.\<close>

definition on_help :: "int \<Rightarrow> env \<Rightarrow> int \<Rightarrow> bot \<Rightarrow> bot result" where
  "on_help OWNER_ID io from_id =
     isOwner OWNER_ID from_id (\<lambda>s. (sent io (Reply HelpText), [Reply HelpText], s))"

text \<open>\<^verbatim>\<open>new Set(...)\<close> spread into an array: the first occurrence of each value, in order.\<close>

definition set_spread :: "'a list \<Rightarrow> 'a list" where
  "set_spread xs = foldl (\<lambda>acc x. if x \<in> set acc then acc else acc @ [x]) [] xs"

text \<open>\<open>uniqueDates\<close>, lines 133 to 139, from the rows the query returned.\<close>

definition uniqueDates :: "receipt list \<Rightarrow> string list" where
  "uniqueDates data = set_spread (map (\<lambda>r. format_DDMMYY (received_at r)) data)"

text \<open>A callback button: its label and its callback data (lines 146 to 148).\<close>

definition button_callback :: "string \<Rightarrow> string \<times> string" where
  "button_callback date = (date, ''receipt_date_'' @ date)"

text \<open>Rows of three, lines 151 to 155: row \<open>i\<close> is \<^verbatim>\<open>buttons.slice(i * 3, i * 3 + 3)\<close> for
  \<open>i\<close> below \<^verbatim>\<open>Math.ceil(buttons.length / 3)\<close>.\<close>

definition rows_of_3 :: "'a list \<Rightarrow> 'a list list" where
  "rows_of_3 buttons =
     map (\<lambda>i. take 3 (drop (i * 3) buttons)) [0 ..< (length buttons + 2) div 3]"

text \<open>\<^verbatim>\<open>bot.command("receipt", isOwner, ...)\<close>, lines 120 to 162. The two early
  \<^verbatim>\<open>return ctx.reply(...)\<close> are not awaited inside the \<open>try\<close>, so a failure of theirs
  is not caught; the awaited reply with the keyboard is.\<close>

definition on_receipt :: "int \<Rightarrow> env \<Rightarrow> int \<Rightarrow> bot \<Rightarrow> bot result" where
  "on_receipt OWNER_ID io from_id =
     isOwner OWNER_ID from_id (\<lambda>s.
       if db io \<noteq> DbOk then
         (sent io (Reply ErrorFetchingDates),
          [SelectReceivedAt, LogError ErrorFetchingReceiptDates, Reply ErrorFetchingDates], s)
       else if receipts s = [] then
         (sent io (Reply NoReceiptsInDatabase), [SelectReceivedAt, Reply NoReceiptsInDatabase], s)
       else if uniqueDates (receipts s) = [] then
         (sent io (Reply NoReceiptsFound), [SelectReceivedAt, Reply NoReceiptsFound], s)
       else
         let keyboard = Reply (ChooseDate (rows_of_3 (map button_callback (uniqueDates (receipts s)))))
         in if tg_ok io keyboard then (Completed, [SelectReceivedAt, keyboard], s)
            else (sent io (Reply ErrorFetchingDates),
                  [SelectReceivedAt, keyboard, LogError ErrorFetchingReceiptDates,
                   Reply ErrorFetchingDates], s))"

text \<open>The caption of one replayed receipt, lines 200 to 223.\<close>

definition receipt_info :: "receipt \<Rightarrow> caption_text" where
  "receipt_info r =
     \<lparr>cap_title = ReceiptInfo,
      cap_name = escape_text (or_empty (first_name r) @ '' '' @ or_empty (last_name r)),
      cap_profile_id = user_id r,
      cap_username =
        (if truthy (username r) then ''@'' @ escape_text (or_empty (username r))
         else ''Not Available''),
      cap_user_id = escape_text (String_int (user_id r)),
      cap_time = escape_text (format_DDMMYY_HHmmss (received_at r)),
      cap_user_caption =
        (if truthy (receipt_caption r) then Some (escape_text (or_empty (receipt_caption r)))
         else None)\<rparr>"

text \<open>The loop of lines 199 to 229: one \<open>replyWithPhoto\<close> per receipt, in the order of
  \<open>data\<close>; the first that throws ends the loop. The result says whether the loop ran through.\<close>

fun replay :: "env \<Rightarrow> receipt list \<Rightarrow> bool \<times> call list" where
  "replay io [] = (True, [])"
| "replay io (r # rs) =
     (let c = ReplyWithPhoto (receipt_file_id r) (receipt_info r) MarkdownV2
      in if tg_ok io c then (case replay io rs of (ok, cs) \<Rightarrow> (ok, c # cs))
         else (False, [c]))"

text \<open>
  The query of lines 182 to 187: \<^verbatim>\<open>.gte("received_at", startDate).lte("received_at", endDate)\<close>
  \<^verbatim>\<open>.order("received_at", { ascending: true })\<close>. Rows with equal timestamps come in the
  order of the table here; the database promises no order among them.
\<close>

definition select_range :: "receipt list \<Rightarrow> int \<Rightarrow> int \<Rightarrow> receipt list" where
  "select_range rows startDate endDate =
     sort_key received_at
       (filter (\<lambda>r. startDate \<le> received_at r \<and> received_at r \<le> endDate) rows)"

text \<open>
  \<^verbatim>\<open>bot.action(/receipt_date_(.+)/, isOwner, ...)\<close>, lines 166 to 234, given \<open>ctx.match[1]\<close>.
  \<open>answerCbQuery\<close> is outside the \<open>try\<close>. For an invalid date \<open>toISOString()\<close> is \<open>null\<close>;
  a query with such a bound is taken to fail like any other failing query.
\<close>

definition on_receipt_date :: "int \<Rightarrow> env \<Rightarrow> int \<Rightarrow> string \<Rightarrow> bot \<Rightarrow> bot result" where
  "on_receipt_date OWNER_ID io from_id dateStr =
     isOwner OWNER_ID from_id (\<lambda>s.
       let answer = AnswerCbQuery dateStr;
           day = parse_DDMMYY dateStr;
           query = SelectRange (map_option startOf_day day) (map_option endOf_day day);
           failed = [LogError ErrorFetchingReceiptsByDate, Reply ErrorFetchingReceipts]
       in if \<not> tg_ok io answer then (Threw, [answer], s)
          else case (if db io = DbOk then day else None) of
            None \<Rightarrow> (sent io (Reply ErrorFetchingReceipts), [answer, query] @ failed, s)
          | Some c \<Rightarrow>
              let data = select_range (receipts s) (startOf_day c) (endOf_day c);
                  none = Reply (NoReceiptsFor dateStr);
                  header = Reply (ReceiptsHeader dateStr (length data))
              in if data = [] then (sent io none, [answer, query, none], s)
                 else if \<not> tg_ok io header then
                   (sent io (Reply ErrorFetchingReceipts), [answer, query, header] @ failed, s)
                 else case replay io data of
                   (True, cs) \<Rightarrow> (Completed, [answer, query, header] @ cs, s)
                 | (False, cs) \<Rightarrow>
                     (sent io (Reply ErrorFetchingReceipts),
                      [answer, query, header] @ cs @ failed, s))"

text \<open>
  The text behind \<open>ReceiptsHeader dateStr n\<close>, line 194, sent with
  \<^verbatim>\<open>parse_mode: "MarkdownV2"\<close> (the first four bytes are the receipt emoji):
  \<^verbatim>\<open>*Receipts for ${dateStr}* (${data.length} found):\<close> after the emoji and a space.
\<close>

definition receipts_header_text :: "string \<Rightarrow> nat \<Rightarrow> string" where
  "receipts_header_text dateStr n =
     [CHR 0xF0, CHR 0x9F, CHR 0xA7, CHR 0xBE] @ '' *Receipts for '' @ dateStr @ ''* (''
       @ String_int (int n) @ '' found):''"

text \<open>Whether the character \<open>c\<close> stands somewhere in a text without being taken by a
  backslash before it (a backslash takes the character after it, as in \<open>mdv2_safe\<close>).\<close>

fun has_bare :: "char \<Rightarrow> string \<Rightarrow> bool" where
  "has_bare c [] = False"
| "has_bare c [x] = (x \<noteq> backslash \<and> x = c)"
| "has_bare c (x # y # zs) =
     (if x = backslash then has_bare c zs else x = c \<or> has_bare c (y # zs))"

text \<open>\<^verbatim>\<open>bot.start(...)\<close>, lines 238 to 241: no owner check.\<close>

definition on_start :: "env \<Rightarrow> bot \<Rightarrow> bot result" where
  "on_start io s = (sent io (Reply Greeting), [Reply Greeting], s)"

text \<open>The caption of the forwarded photo, lines 276 to 292.\<close>

definition new_receipt :: "tg_user \<Rightarrow> int \<Rightarrow> string option \<Rightarrow> caption_text" where
  "new_receipt user myanmarTime userCaption =
     \<lparr>cap_title = NewReceipt,
      cap_name = escape_text (or_empty (u_first_name user) @ '' '' @ or_empty (u_last_name user)),
      cap_profile_id = uid user,
      cap_username =
        (if truthy (u_username user) then ''@'' @ escape_text (or_empty (u_username user))
         else ''Not Available''),
      cap_user_id = escape_text (String_int (uid user)),
      cap_time = escape_text (format_DDMMYY_HHmmss myanmarTime),
      cap_user_caption =
        (if truthy userCaption then Some (escape_text (or_empty userCaption)) else None)\<rparr>"

text \<open>\<^verbatim>\<open>ctx.message.caption || null\<close>, line 251.\<close>

definition user_caption :: "photo_message \<Rightarrow> string option" where
  "user_caption msg = (if truthy (msg_caption msg) then msg_caption msg else None)"

text \<open>The row of the insert, lines 256 to 264.\<close>

definition receipt_row :: "photo_message \<Rightarrow> int \<Rightarrow> receipt" where
  "receipt_row msg myanmarTime =
     \<lparr>user_id = uid (msg_from msg), first_name = u_first_name (msg_from msg),
      last_name = u_last_name (msg_from msg), username = u_username (msg_from msg),
      receipt_file_id = last (msg_photo msg), receipt_caption = user_caption msg,
      received_at = myanmarTime\<rparr>"

text \<open>The call that forwards the photo to the group, lines 295 to 298.\<close>

definition forward_photo :: "string option \<Rightarrow> photo_message \<Rightarrow> int \<Rightarrow> call" where
  "forward_photo groupId msg myanmarTime =
     SendPhoto (or_empty groupId) (last (msg_photo msg))
       (new_receipt (msg_from msg) myanmarTime (user_caption msg)) MarkdownV2"

text \<open>
  \<^verbatim>\<open>bot.on("photo", ...)\<close>, lines 244 to 307. Line 250 reads the last photo size outside
  any \<open>try\<close>: with no sizes it throws. The insert's failure is caught and answered (lines
  267 to 271); a failure of \<open>sendPhoto\<close> or of the acknowledgement is caught and only
  logged (lines 303 to 306).
\<close>

definition on_photo :: "env \<Rightarrow> photo_message \<Rightarrow> bot \<Rightarrow> bot result" where
  "on_photo io msg s =
     (if \<not> truthy (connectedGroupId s) then
        (sent io (Reply NotConnected), [Reply NotConnected], s)
      else if msg_photo msg = [] then (Threw, [], s)
      else
        let myanmarTime = now io;
            insert = Insert (receipt_row msg myanmarTime);
            forward = forward_photo (connectedGroupId s) msg myanmarTime
        in if db io \<noteq> DbOk then
             (sent io (Reply ErrorProcessing),
              [insert, LogError ErrorSavingReceipt, Reply ErrorProcessing], s)
           else
             let s' = s\<lparr>receipts := receipts s @ [receipt_row msg myanmarTime]\<rparr>
             in if \<not> tg_ok io forward then
                  (Completed, [insert, forward, LogError ErrorForwardingPhoto], s')
                else if \<not> tg_ok io (Reply Ack) then
                  (Completed, [insert, forward, Reply Ack, LogError ErrorForwardingPhoto], s')
                else (Completed, [insert, forward, Reply Ack], s'))"

text \<open>The updates the bot of \<open>src/bot.js\<close> handles, each with the sender's id where the
  handler looks at it, and a run of the bot over a sequence of them.\<close>

datatype update =
    Connectgp int string
  | Disconnect int
  | Help int
  | ReceiptCommand int
  | ReceiptDate int string
  | Start
  | Photo photo_message

fun handle :: "int \<Rightarrow> env \<Rightarrow> update \<Rightarrow> bot \<Rightarrow> bot result" where
  "handle OWNER_ID io (Connectgp from_id text) s = on_connectgp OWNER_ID io from_id text s"
| "handle OWNER_ID io (Disconnect from_id) s = on_disconnect OWNER_ID io from_id s"
| "handle OWNER_ID io (Help from_id) s = on_help OWNER_ID io from_id s"
| "handle OWNER_ID io (ReceiptCommand from_id) s = on_receipt OWNER_ID io from_id s"
| "handle OWNER_ID io (ReceiptDate from_id dateStr) s = on_receipt_date OWNER_ID io from_id dateStr s"
| "handle OWNER_ID io Start s = on_start io s"
| "handle OWNER_ID io (Photo msg) s = on_photo io msg s"

fun run :: "int \<Rightarrow> (env \<times> update) list \<Rightarrow> bot \<Rightarrow> bot" where
  "run OWNER_ID [] s = s"
| "run OWNER_ID ((io, u) # evs) s = run OWNER_ID evs (state_of (handle OWNER_ID io u s))"

text \<open>The updates that call \<open>saveConnection\<close> with a group id and have the write succeed:
  \<open>/connectgp\<close> from the owner, with an argument, answered by the database.\<close>

fun connects :: "int \<Rightarrow> env \<times> update \<Rightarrow> bool" where
  "connects OWNER_ID (io, Connectgp from_id text) =
     (from_id = OWNER_ID \<and> command_args text \<noteq> [] \<and> db io = DbOk)"
| "connects OWNER_ID (io, u) = False"

section \<open>The file-backed variants: \<open>src/unnamed/part_000\<close> and \<open>part_001\<close>\<close>

text \<open>
  The state: the module variable and \<open>connected.json\<close> (\<open>None\<close>: no file; \<open>Some g\<close>: the file
  holds \<open>{groupId: g}\<close>). The command handlers of the two files are the same text.
\<close>

record file_bot =
  connectedGroupId_f :: "string option"
  data_file :: "string option option"

text \<open>\<open>saveConnection\<close> of part_000, lines 22 to 24: \<open>writeFileSync\<close> returns or throws.\<close>

definition saveConnection_file :: "env \<Rightarrow> string option \<Rightarrow> file_bot \<Rightarrow> file_bot result" where
  "saveConnection_file io groupId s =
     (if fs_ok io then (Completed, [WriteFile groupId], s\<lparr>data_file := Some groupId\<rparr>)
      else (Threw, [WriteFile groupId], s))"

text \<open>\<^verbatim>\<open>bot.command("connectgp", ...)\<close> of part_000, lines 27 to 39.\<close>

definition on_connectgp_part000 :: "int \<Rightarrow> env \<Rightarrow> int \<Rightarrow> string \<Rightarrow> file_bot \<Rightarrow> file_bot result" where
  "on_connectgp_part000 OWNER_ID io from_id text s =
     (if from_id \<noteq> OWNER_ID then (Completed, [], s)
      else
        let args = command_args text in
        if args = [] then (sent io (Reply Usage), [Reply Usage], s)
        else case saveConnection_file io (Some args) (s\<lparr>connectedGroupId_f := Some args\<rparr>) of
          (Threw, calls, s') \<Rightarrow> (Threw, calls, s')
        | (Completed, calls, s') \<Rightarrow>
            (sent io (Reply (Connected args)), calls @ [Reply (Connected args)], s'))"

text \<open>\<^verbatim>\<open>bot.command("disconnect", ...)\<close> of part_000, lines 41 to 48.\<close>

definition on_disconnect_part000 :: "int \<Rightarrow> env \<Rightarrow> int \<Rightarrow> file_bot \<Rightarrow> file_bot result" where
  "on_disconnect_part000 OWNER_ID io from_id s =
     (if from_id \<noteq> OWNER_ID then (Completed, [], s)
      else case saveConnection_file io None (s\<lparr>connectedGroupId_f := None\<rparr>) of
          (Threw, calls, s') \<Rightarrow> (Threw, calls, s')
        | (Completed, calls, s') \<Rightarrow>
            (sent io (Reply Disconnected), calls @ [Reply Disconnected], s'))"

text \<open>The caption of part_001, lines 70 to 81.\<close>

definition new_receipt_part001 :: "tg_user \<Rightarrow> int \<Rightarrow> caption_text" where
  "new_receipt_part001 user t =
     \<lparr>cap_title = NewReceiptWithPhone,
      cap_name =
        escape_text_part001 (or_empty (u_first_name user) @ '' '' @ or_empty (u_last_name user)),
      cap_profile_id = uid user,
      cap_username =
        (if truthy (u_username user) then ''@'' @ escape_text_part001 (or_empty (u_username user))
         else ''Not Available''),
      cap_user_id = escape_text_part001 (String_int (uid user)),
      cap_time = escape_text_part001 (format_DDMMYY_HHmmss t),
      cap_user_caption = None\<rparr>"

text \<open>
  \<^verbatim>\<open>bot.on("photo", ...)\<close> of part_001, lines 61 to 98: nothing is stored; inside the \<open>try\<close>
  the sender is answered first and the photo is sent to the group after that; whatever
  throws there is logged.
\<close>

definition forward_photo_part001 :: "string option \<Rightarrow> photo_message \<Rightarrow> int \<Rightarrow> call" where
  "forward_photo_part001 groupId msg t =
     SendPhoto (or_empty groupId) (last (msg_photo msg))
       (new_receipt_part001 (msg_from msg) t) MarkdownV2"

definition on_photo_part001 :: "env \<Rightarrow> photo_message \<Rightarrow> file_bot \<Rightarrow> file_bot result" where
  "on_photo_part001 io msg s =
     (if \<not> truthy (connectedGroupId_f s) then
        (sent io (Reply NotConnected), [Reply NotConnected], s)
      else if msg_photo msg = [] then (Completed, [LogError ErrorHandlingPhoto], s)
      else
        let forward = forward_photo_part001 (connectedGroupId_f s) msg (now io)
        in if \<not> tg_ok io (Reply Ack) then
             (Completed, [Reply Ack, LogError ErrorHandlingPhoto], s)
           else if \<not> tg_ok io forward then
             (Completed, [Reply Ack, forward, LogError ErrorHandlingPhoto], s)
           else (Completed, [Reply Ack, forward], s))"

section \<open>Example inputs\<close>

text \<open>10:00:00 on 5 January 2024 in Asia/Yangon is 03:30:00 UTC of that day.\<close>

definition t_2024_01_05_10h :: int where
  "t_2024_01_05_10h = 1704425400000"

definition io_ok :: env where
  "io_ok = \<lparr>now = t_2024_01_05_10h, db = DbOk, tg_rejects = [], fs_ok = True\<rparr>"

definition io_db_error :: env where
  "io_db_error = \<lparr>now = t_2024_01_05_10h, db = DbError, tg_rejects = [], fs_ok = True\<rparr>"

definition alice :: tg_user where
  "alice = \<lparr>uid = 42, u_first_name = Some ''Al'', u_last_name = None,
            u_username = Some ''al_ice''\<rparr>"

definition photo_of_alice :: photo_message where
  "photo_of_alice =
     \<lparr>msg_from = alice, msg_photo = [''small'', ''large''], msg_caption = Some ''Premium''\<rparr>"

definition connected_bot :: bot where
  "connected_bot =
     \<lparr>connectedGroupId = Some ''-100'', settings = Some (Some ''-100''), receipts = []\<rparr>"

definition connected_file_bot :: file_bot where
  "connected_file_bot = \<lparr>connectedGroupId_f = Some ''-100'', data_file = Some (Some ''-100'')\<rparr>"

definition row_at :: "int \<Rightarrow> receipt" where
  "row_at t =
     \<lparr>user_id = 42, first_name = Some ''Al'', last_name = None, username = None,
      receipt_file_id = ''large'', receipt_caption = None, received_at = t\<rparr>"

definition three_receipts :: bot where
  "three_receipts =
     \<lparr>connectedGroupId = Some ''-100'', settings = Some (Some ''-100''),
      receipts = [row_at (t_2024_01_05_10h + 5), row_at 0, row_at t_2024_01_05_10h]\<rparr>"

definition io_group_rejects :: env where
  "io_group_rejects =
     \<lparr>now = t_2024_01_05_10h, db = DbOk,
      tg_rejects = [forward_photo (Some ''-100'') photo_of_alice t_2024_01_05_10h],
      fs_ok = True\<rparr>"

text \<open>Telegram answering by its MarkdownV2 rule: the header for two receipts of
  05/01/24, whose parentheses have no backslash, is refused; every other call is accepted.\<close>

definition io_header_refused :: env where
  "io_header_refused =
     \<lparr>now = t_2024_01_05_10h, db = DbOk,
      tg_rejects = [Reply (ReceiptsHeader ''05/01/24'' 2)], fs_ok = True\<rparr>"

text \<open>Updates after which a disconnected bot is still disconnected: a photo, a
  \<open>/connectgp\<close> whose write fails, one from somebody else, and one with no argument.\<close>

definition quiet_updates :: "(env \<times> update) list" where
  "quiet_updates =
     [(io_ok, Photo photo_of_alice), (io_db_error, Connectgp 1 ''/connectgp -100''),
      (io_ok, Connectgp 2 ''/connectgp -100''), (io_ok, Connectgp 1 ''/connectgp'')]"

section \<open>The calendar: the year, month and date of a day number\<close>

lemma div_succ:
  fixes n k :: int
  assumes "0 < k"
  shows "(n + 1) div k = n div k + (if (n + 1) mod k = 0 then 1 else 0)"
proof -
  have n: "k * (n div k) + n mod k = n" by simp
  have r: "0 \<le> n mod k" "n mod k < k" using assms by simp_all
  show ?thesis
  proof (cases "n mod k + 1 = k")
    case True
    have e: "n + 1 = k * (n div k + 1) + 0"
      using n True unfolding distrib_left by linarith
    have "(n + 1) div k = n div k + 1"
      by (rule int_div_pos_eq [OF e]) (use assms in simp_all)
    moreover have "(n + 1) mod k = 0"
      by (rule int_mod_pos_eq [OF e]) (use assms in simp_all)
    ultimately show ?thesis by simp
  next
    case False
    then have lt: "n mod k + 1 < k" using r by linarith
    have e: "n + 1 = k * (n div k) + (n mod k + 1)"
      using n by linarith
    have p: "0 \<le> n mod k + 1" using r by linarith
    have "(n + 1) div k = n div k"
      using e p lt by (rule int_div_pos_eq)
    moreover have "(n + 1) mod k = n mod k + 1"
      using e p lt by (rule int_mod_pos_eq)
    ultimately show ?thesis using r by simp
  qed
qed

lemma mod_shift: "k dvd c \<Longrightarrow> ((y::int) - c) mod k = 0 \<longleftrightarrow> y mod k = 0"
  by (simp add: mod_eq_0_iff_dvd dvd_diff_left_iff)

lemma mod_400_100: "(y::int) mod 400 = 0 \<Longrightarrow> y mod 100 = 0"
proof -
  assume "y mod 400 = 0"
  then have "400 dvd y" by (simp add: mod_eq_0_iff_dvd)
  moreover have "(100::int) dvd 400" by simp
  ultimately have "100 dvd y" by (rule dvd_trans [rotated])
  then show ?thesis by (simp add: mod_eq_0_iff_dvd)
qed

lemma mod_100_4: "(y::int) mod 100 = 0 \<Longrightarrow> y mod 4 = 0"
proof -
  assume "y mod 100 = 0"
  then have "100 dvd y" by (simp add: mod_eq_0_iff_dvd)
  moreover have "(4::int) dvd 100" by simp
  ultimately have "4 dvd y" by (rule dvd_trans [rotated])
  then show ?thesis by (simp add: mod_eq_0_iff_dvd)
qed

lemma DayFromYear_step: "DayFromYear (y + 1) = DayFromYear y + DaysInYear y"
proof -
  define A where "A = (y - 1969) div 4"
  define B where "B = (y - 1901) div 100"
  define C where "C = (y - 1601) div 400"
  define i4 :: int where "i4 = (if y mod 4 = 0 then 1 else 0)"
  define i100 :: int where "i100 = (if y mod 100 = 0 then 1 else 0)"
  define i400 :: int where "i400 = (if y mod 400 = 0 then 1 else 0)"
  have e4: "y + 1 - 1969 = y - 1969 + 1" and e4': "y - 1969 + 1 = y - 1968"
    and e100: "y + 1 - 1901 = y - 1901 + 1" and e100': "y - 1901 + 1 = y - 1900"
    and e400: "y + 1 - 1601 = y - 1601 + 1" and e400': "y - 1601 + 1 = y - 1600"
    and e: "y + 1 - 1970 = y - 1969"
    by linarith+
  have a: "(y + 1 - 1969) div 4 = A + i4"
    unfolding e4 A_def i4_def
    using div_succ [of 4 "y - 1969"] mod_shift [of 4 1968 y]
    by (simp only: e4') simp
  have b: "(y + 1 - 1901) div 100 = B + i100"
    unfolding e100 B_def i100_def
    using div_succ [of 100 "y - 1901"] mod_shift [of 100 1900 y]
    by (simp only: e100') simp
  have c: "(y + 1 - 1601) div 400 = C + i400"
    unfolding e400 C_def i400_def
    using div_succ [of 400 "y - 1601"] mod_shift [of 400 1600 y]
    by (simp only: e400') simp
  have leap: "InLeapYear y = i4 - i100 + i400"
  proof -
    define p4 where "p4 \<longleftrightarrow> y mod 4 = 0"
    define p100 where "p100 \<longleftrightarrow> y mod 100 = 0"
    define p400 where "p400 \<longleftrightarrow> y mod 400 = 0"
    have i1: "p400 \<Longrightarrow> p100" unfolding p400_def p100_def by (rule mod_400_100)
    have i2: "p100 \<Longrightarrow> p4" unfolding p100_def p4_def by (rule mod_100_4)
    have "(if p4 \<and> (\<not> p100 \<or> p400) then 1 else 0) =
          (if p4 then 1 else 0) - (if p100 then 1 else 0) + (if p400 then 1 else (0::int))"
      using i1 i2 by (cases p4; cases p100; cases p400; simp)
    then show ?thesis
      unfolding InLeapYear_def i4_def i100_def i400_def p4_def p100_def p400_def .
  qed
  have "DayFromYear (y + 1) = 365 * (y - 1969) + (A + i4) - (B + i100) + (C + i400)"
    unfolding DayFromYear_def a b c e ..
  also have "\<dots> = (365 * (y - 1970) + A - B + C) + (365 + (i4 - i100 + i400))"
    unfolding right_diff_distrib by linarith
  also have "\<dots> = DayFromYear y + DaysInYear y"
    unfolding DayFromYear_def DaysInYear_def leap A_def B_def C_def ..
  finally show ?thesis .
qed

lemma div_lo: "0 < k \<Longrightarrow> k * (n div k) \<le> (n::int)"
  using mult_div_mod_eq [of k n] pos_mod_sign [of k n] by linarith

lemma div_hi: "0 < k \<Longrightarrow> (n::int) - (k - 1) \<le> k * (n div k)"
  using mult_div_mod_eq [of k n] pos_mod_bound [of k n] by linarith

lemma DayFromYear_lb: "146097 * (y - 1970) - 506 \<le> 400 * DayFromYear y"
proof -
  define A where "A = (y - 1969) div 4"
  define B where "B = (y - 1901) div 100"
  define C where "C = (y - 1601) div 400"
  have a: "y - 1969 - (4 - 1) \<le> 4 * A"
    unfolding A_def by (rule div_hi) simp
  have b: "100 * B \<le> y - 1901"
    unfolding B_def by (rule div_lo) simp
  have c: "y - 1601 - (400 - 1) \<le> 400 * C"
    unfolding C_def by (rule div_hi) simp
  have "146097 * y - 146097 * 1970 - 506 \<le> 400 * (365 * y) - 400 * (365 * 1970) + 400 * A - 400 * B + 400 * C"
    using a b c by linarith
  then show ?thesis
    unfolding DayFromYear_def A_def [symmetric] B_def [symmetric] C_def [symmetric]
      distrib_left right_diff_distrib .
qed

lemma DayFromYear_ub: "400 * DayFromYear y \<le> 146097 * (y - 1970) + 589"
proof -
  define A where "A = (y - 1969) div 4"
  define B where "B = (y - 1901) div 100"
  define C where "C = (y - 1601) div 400"
  have a: "4 * A \<le> y - 1969"
    unfolding A_def by (rule div_lo) simp
  have b: "y - 1901 - (100 - 1) \<le> 100 * B"
    unfolding B_def by (rule div_hi) simp
  have c: "400 * C \<le> y - 1601"
    unfolding C_def by (rule div_lo) simp
  have "400 * (365 * y) - 400 * (365 * 1970) + 400 * A - 400 * B + 400 * C \<le> 146097 * y - 146097 * 1970 + 589"
    using a b c by linarith
  then show ?thesis
    unfolding DayFromYear_def A_def [symmetric] B_def [symmetric] C_def [symmetric]
      distrib_left right_diff_distrib .
qed

lemma DayFromYear_strict_mono:
  assumes "a < b"
  shows "DayFromYear a < DayFromYear b"
proof -
  have "400 * DayFromYear a \<le> 146097 * a - 146097 * 1970 + 589"
    using DayFromYear_ub [of a] unfolding right_diff_distrib .
  moreover have "146097 * b - 146097 * 1970 - 506 \<le> 400 * DayFromYear b"
    using DayFromYear_lb [of b] unfolding right_diff_distrib .
  moreover have "146097 * a + 146097 \<le> 146097 * b"
    using assms by linarith
  ultimately show ?thesis by linarith
qed

lemma YearFromDay_lower: "DayFromYear (YearFromDay d) \<le> d"
proof -
  define q where "q = (400 * d) div 146097"
  have q: "146097 * q \<le> 400 * d"
    unfolding q_def using div_lo [of 146097 "400 * d"] by simp
  have "400 * DayFromYear (1970 + q - 1) \<le> 146097 * q - 146097 + 589"
    using DayFromYear_ub [of "1970 + q - 1"] by (simp add: algebra_simps)
  then have "DayFromYear (1970 + q - 1) \<le> d"
    using q by linarith
  then show ?thesis
    unfolding YearFromDay_def Let_def q_def [symmetric] by simp
qed

lemma YearFromDay_upper: "d < DayFromYear (YearFromDay d + 1)"
proof -
  define q where "q = (400 * d) div 146097"
  have q: "400 * d < 146097 * q + 146097"
    unfolding q_def using div_hi [of 146097 "400 * d"] by simp
  have "146097 * q + 2 * 146097 - 506 \<le> 400 * DayFromYear (1970 + q + 1 + 1)"
    using DayFromYear_lb [of "1970 + q + 1 + 1"] by (simp add: algebra_simps)
  then have "d < DayFromYear (1970 + q + 1 + 1)"
    using q by linarith
  then show ?thesis
    unfolding YearFromDay_def Let_def q_def [symmetric] by (simp add: add.commute)
qed

lemma YearFromDay_unique:
  assumes "DayFromYear y \<le> n" and "n < DayFromYear (y + 1)"
  shows "YearFromDay n = y"
proof (rule ccontr)
  assume ne: "YearFromDay n \<noteq> y"
  show False
  proof (cases "YearFromDay n < y")
    case True
    then have "YearFromDay n + 1 = y \<or> YearFromDay n + 1 < y" by linarith
    then have "DayFromYear (YearFromDay n + 1) \<le> DayFromYear y"
      using DayFromYear_strict_mono [of "YearFromDay n + 1" y] by auto
    then show False using YearFromDay_upper [of n] assms(1) by linarith
  next
    case False
    then have "y + 1 = YearFromDay n \<or> y + 1 < YearFromDay n" using ne by linarith
    then have "DayFromYear (y + 1) \<le> DayFromYear (YearFromDay n)"
      using DayFromYear_strict_mono [of "y + 1" "YearFromDay n"] by auto
    then show False using YearFromDay_lower [of n] assms(2) by linarith
  qed
qed

lemma InLeapYear_cases: "InLeapYear y = 0 \<or> InLeapYear y = 1"
  by (simp add: InLeapYear_def)

lemma month_cases:
  assumes "1 \<le> m" and "m \<le> (12::int)"
  shows "m = 1 \<or> m = 2 \<or> m = 3 \<or> m = 4 \<or> m = 5 \<or> m = 6 \<or> m = 7 \<or> m = 8 \<or> m = 9
         \<or> m = 10 \<or> m = 11 \<or> m = 12"
  using assms by arith

lemma month_of_MakeDay:
  assumes L: "L = 0 \<or> L = 1"
    and m: "1 \<le> m" "m \<le> 12"
    and d: "1 \<le> d" "d \<le> DaysInMonth L (m - 1)"
  shows "MonthFromDay L (month_start L (m - 1) + d - 1) = m - 1"
  using month_cases [OF m] L d
  by (elim disjE; simp add: MonthFromDay_def month_start_def DaysInMonth_def)

lemma day_in_year:
  assumes L: "L = 0 \<or> L = 1"
    and m: "1 \<le> m" "m \<le> 12"
    and d: "1 \<le> d" "d \<le> DaysInMonth L (m - 1)"
  shows "0 \<le> month_start L (m - 1) + d - 1 \<and> month_start L (m - 1) + d - 1 < 365 + L"
  using month_cases [OF m] L d
  by (elim disjE; simp add: month_start_def DaysInMonth_def)

lemma MonthFromDay_range:
  assumes "L = 0 \<or> L = 1" and "0 \<le> dw" and "dw < 365 + L"
  shows "0 \<le> MonthFromDay L dw \<and> MonthFromDay L dw \<le> 11
         \<and> month_start L (MonthFromDay L dw) \<le> dw
         \<and> dw < month_start L (MonthFromDay L dw + 1)"
  using assms by (elim disjE; simp add: MonthFromDay_def month_start_def)

lemma civil_from_day_MakeDay:
  assumes "valid_date (y, m, d)"
  shows "civil_from_day (MakeDay y (m - 1) d) = (y, m, d)"
proof -
  define L where "L = InLeapYear y"
  define dw where "dw = month_start L (m - 1) + d - 1"
  have L: "L = 0 \<or> L = 1" unfolding L_def by (rule InLeapYear_cases)
  have m: "1 \<le> m" "m \<le> 12" and d: "1 \<le> d" "d \<le> DaysInMonth L (m - 1)"
    using assms unfolding valid_date_def L_def by simp_all
  have dw: "0 \<le> dw" "dw < 365 + L"
    using day_in_year [OF L m d] unfolding dw_def by simp_all
  have n: "MakeDay y (m - 1) d = DayFromYear y + dw"
    unfolding MakeDay_def dw_def L_def by linarith
  have "DayFromYear y + dw < DayFromYear (y + 1)"
    unfolding DayFromYear_step DaysInYear_def L_def [symmetric] using dw by linarith
  moreover have "DayFromYear y \<le> DayFromYear y + dw" using dw by linarith
  ultimately have y: "YearFromDay (DayFromYear y + dw) = y"
    by (rule YearFromDay_unique [rotated])
  have mm: "MonthFromDay L dw = m - 1"
    unfolding dw_def by (rule month_of_MakeDay [OF L m d])
  have dd: "DateFromDay L dw = d"
    unfolding DateFromDay_def mm unfolding dw_def by linarith
  show ?thesis
    unfolding n civil_from_day_def Let_def y L_def [symmetric]
    using mm dd by simp
qed

lemma MakeDay_civil_from_day:
  assumes "civil_from_day n = (y, m, d)"
  shows "valid_date (y, m, d) \<and> MakeDay y (m - 1) d = n"
proof -
  define L where "L = InLeapYear y"
  define dw where "dw = n - DayFromYear y"
  have y: "y = YearFromDay n" and mm: "m = MonthFromDay L dw + 1" and dd: "d = DateFromDay L dw"
    using assms unfolding civil_from_day_def Let_def L_def dw_def by auto
  have L: "L = 0 \<or> L = 1" unfolding L_def by (rule InLeapYear_cases)
  have "DayFromYear y \<le> n" unfolding y by (rule YearFromDay_lower)
  then have dw0: "0 \<le> dw" unfolding dw_def by linarith
  have "n < DayFromYear y + (365 + L)"
    using YearFromDay_upper [of n] unfolding y DayFromYear_step DaysInYear_def L_def .
  then have dw1: "dw < 365 + L" unfolding dw_def by linarith
  note r = MonthFromDay_range [OF L dw0 dw1]
  have m1: "1 \<le> m" "m \<le> 12" unfolding mm using r by linarith+
  have d1: "1 \<le> d" unfolding dd DateFromDay_def using r by linarith
  have "m - 1 + 1 = m" by simp
  then have d2: "d \<le> DaysInMonth L (m - 1)"
    unfolding DaysInMonth_def using r unfolding dd DateFromDay_def mm by simp
  have v: "valid_date (y, m, d)"
    using m1 d1 d2 by (simp add: valid_date_def L_def)
  have "MakeDay y (m - 1) d = n"
    unfolding MakeDay_def L_def [symmetric] mm dd DateFromDay_def dw_def by simp
  with v show ?thesis by simp
qed

lemma civil_from_day_iff:
  assumes "valid_date (y, m, d)"
  shows "civil_from_day n = (y, m, d) \<longleftrightarrow> n = MakeDay y (m - 1) d"
  using civil_from_day_MakeDay [OF assms] MakeDay_civil_from_day [of n y m d] by auto

lemma div_eq_iff:
  fixes x k D :: int
  assumes "0 < k"
  shows "x div k = D \<longleftrightarrow> k * D \<le> x \<and> x < k * D + k"
proof
  assume "x div k = D"
  then show "k * D \<le> x \<and> x < k * D + k"
    using div_lo [OF assms, of x] div_hi [OF assms, of x] by auto
next
  assume a: "k * D \<le> x \<and> x < k * D + k"
  have e: "x = k * D + (x - k * D)" by simp
  show "x div k = D"
    by (rule int_div_pos_eq [OF e]) (use a in simp_all)
qed

lemma local_date_iff:
  assumes "valid_date c"
  shows "local_date t = c \<longleftrightarrow> startOf_day c \<le> t \<and> t \<le> endOf_day c"
proof -
  obtain y m d where c: "c = (y, m, d)" by (cases c) auto
  define D where "D = MakeDay y (m - 1) d"
  have "local_date t = c \<longleftrightarrow> local_day t = D"
    unfolding local_date_def c D_def using assms unfolding c by (rule civil_from_day_iff)
  also have "\<dots> \<longleftrightarrow> 86400000 * D \<le> t + 23400000 \<and> t + 23400000 < 86400000 * D + 86400000"
    unfolding local_day_def msPerDay_def tz_offset_def by (rule div_eq_iff) simp
  also have "\<dots> \<longleftrightarrow> D * 86400000 - 23400000 \<le> t \<and> t \<le> D * 86400000 - 23400000 + 86400000 - 1"
    by linarith
  also have "\<dots> \<longleftrightarrow> startOf_day c \<le> t \<and> t \<le> endOf_day c"
    unfolding endOf_day_def startOf_day_def c D_def msPerDay_def tz_offset_def by simp
  finally show ?thesis .
qed

lemma parse_DDMMYY_valid: "parse_DDMMYY s = Some c \<Longrightarrow> valid_date c"
  unfolding parse_DDMMYY_def by (auto split: if_splits option.splits)

lemma foldl_spread_set:
  "set (foldl (\<lambda>acc x. if x \<in> set acc then acc else acc @ [x]) a xs) = set a \<union> set xs"
  by (induction xs arbitrary: a) auto

lemma foldl_spread_distinct:
  "distinct a \<Longrightarrow> distinct (foldl (\<lambda>acc x. if x \<in> set acc then acc else acc @ [x]) a xs)"
  by (induction xs arbitrary: a) auto

lemma set_set_spread: "set (set_spread xs) = set xs"
  unfolding set_spread_def by (simp add: foldl_spread_set)

lemma distinct_set_spread: "distinct (set_spread xs)"
  unfolding set_spread_def by (rule foldl_spread_distinct) simp

lemma format_DDMMYY_of_day:
  assumes "valid_date (y, m, d)"
    and "startOf_day (y, m, d) \<le> t" and "t \<le> endOf_day (y, m, d)"
  shows "format_DDMMYY t = pad2 d @ ''/'' @ pad2 m @ ''/'' @ pad2 (y mod 100)"
proof -
  have "local_date t = (y, m, d)"
    using local_date_iff [OF assms(1), of t] assms(2,3) by simp
  then show ?thesis unfolding format_DDMMYY_def by simp
qed

lemma select_range_mset:
  "mset (select_range rows lo hi) =
   filter_mset (\<lambda>r. lo \<le> received_at r \<and> received_at r \<le> hi) (mset rows)"
  unfolding select_range_def by simp

lemma select_range_sorted: "sorted (map received_at (select_range rows lo hi))"
  unfolding select_range_def by simp

lemma uniqueDates_nonempty: "data \<noteq> [] \<Longrightarrow> uniqueDates data \<noteq> []"
proof
  assume "data \<noteq> []" and "uniqueDates data = []"
  then have "set (set_spread (map (\<lambda>r. format_DDMMYY (received_at r)) data)) = {}"
    by (simp add: uniqueDates_def)
  then show False using \<open>data \<noteq> []\<close> by (simp add: set_set_spread)
qed

section \<open>The date listing\<close>

text \<open>
  C3. The keys of the date listing are the \<open>received_at\<close> values of the rows, each rendered by
  \<open>format("DD/MM/YY")\<close> in Asia/Yangon and each key once; a timestamp between the start and
  the end of a local day renders as that day's two-digit day, month and year; a receipt
  received at 10:00:00 on 5 January 2024, Yangon time, gets the key 05/01/24; and these
  keys are what \<open>/receipt\<close> from the owner puts on its buttons, three to a row, when the
  query is answered, there are receipts and Telegram accepts the reply.
\<close>

theorem uniqueDates_keys:
  "set (uniqueDates data) = (\<lambda>r. format_DDMMYY (received_at r)) ` set data
   \<and> distinct (uniqueDates data)
   \<and> (valid_date (y, m, d) \<and> startOf_day (y, m, d) \<le> t \<and> t \<le> endOf_day (y, m, d)
        \<longrightarrow> format_DDMMYY t = pad2 d @ ''/'' @ pad2 m @ ''/'' @ pad2 (y mod 100))
   \<and> startOf_day (2024, 1, 5) + 10 * 3600000 = t_2024_01_05_10h
   \<and> uniqueDates [row_at t_2024_01_05_10h] = [''05/01/24'']
   \<and> (db io = DbOk \<and> tg_rejects io = [] \<and> receipts s \<noteq> []
        \<longrightarrow> on_receipt OWNER_ID io OWNER_ID s =
            (Completed,
             [SelectReceivedAt,
              Reply (ChooseDate (rows_of_3 (map button_callback (uniqueDates (receipts s)))))],
             s))"
proof -
  have a: "set (uniqueDates data) = (\<lambda>r. format_DDMMYY (received_at r)) ` set data"
    unfolding uniqueDates_def by (simp add: set_set_spread)
  have b: "distinct (uniqueDates data)"
    unfolding uniqueDates_def by (rule distinct_set_spread)
  have c: "valid_date (y, m, d) \<and> startOf_day (y, m, d) \<le> t \<and> t \<le> endOf_day (y, m, d)
        \<longrightarrow> format_DDMMYY t = pad2 d @ ''/'' @ pad2 m @ ''/'' @ pad2 (y mod 100)"
    using format_DDMMYY_of_day by blast
  have d: "startOf_day (2024, 1, 5) + 10 * 3600000 = t_2024_01_05_10h"
    by code_simp
  have e: "uniqueDates [row_at t_2024_01_05_10h] = [''05/01/24'']"
    by code_simp
  have f: "db io = DbOk \<and> tg_rejects io = [] \<and> receipts s \<noteq> []
        \<longrightarrow> on_receipt OWNER_ID io OWNER_ID s =
            (Completed,
             [SelectReceivedAt,
              Reply (ChooseDate (rows_of_3 (map button_callback (uniqueDates (receipts s)))))],
             s)"
    by (simp add: on_receipt_def isOwner_def Let_def tg_ok_def uniqueDates_nonempty)
  from a b c d e f show ?thesis by blast
qed

theorem uniqueDates_keys_witness:
  "valid_date (2024, 2, 29) \<and> startOf_day (2024, 2, 29) \<le> 1709177400000
   \<and> 1709177400000 \<le> endOf_day (2024, 2, 29)
   \<and> format_DDMMYY 1709177400000 = ''29/02/24''
   \<and> db io_ok = DbOk \<and> tg_rejects io_ok = [] \<and> receipts three_receipts \<noteq> []
   \<and> on_receipt 1 io_ok 1 three_receipts =
        (Completed,
         [SelectReceivedAt,
          Reply (ChooseDate [[(''05/01/24'', ''receipt_date_05/01/24''),
                              (''01/01/70'', ''receipt_date_01/01/70'')]])],
         three_receipts)"
proof -
  have h: "valid_date (2024, 2, 29) \<and> startOf_day (2024, 2, 29) \<le> 1709177400000
      \<and> 1709177400000 \<le> endOf_day (2024, 2, 29)"
    by code_simp
  have p: "pad2 29 @ ''/'' @ pad2 2 @ ''/'' @ pad2 (2024 mod 100) = ''29/02/24''"
    by code_simp
  have g: "db io_ok = DbOk \<and> tg_rejects io_ok = [] \<and> receipts three_receipts \<noteq> []"
    by (simp add: io_ok_def three_receipts_def)
  have k: "rows_of_3 (map button_callback (uniqueDates (receipts three_receipts))) =
      [[(''05/01/24'', ''receipt_date_05/01/24''), (''01/01/70'', ''receipt_date_01/01/70'')]]"
    by code_simp
  from uniqueDates_keys [of "[]" 2024 2 29 1709177400000 io_ok three_receipts 1] h p g k
  show ?thesis by simp
qed

section \<open>The date-detail button\<close>

text \<open>
  The query of the date-detail handler is right: for a day key that parses to the date
  \<open>c\<close>, the rows it selects are exactly the stored receipts whose \<open>received_at\<close> lies on the
  local day \<open>c\<close> in Asia/Yangon (as a multiset: each stored row once), in ascending order
  of \<open>received_at\<close>.
\<close>

lemma select_range_is_the_day:
  assumes "parse_DDMMYY dateStr = Some c"
  shows "mset (select_range (receipts s) (startOf_day c) (endOf_day c)) =
       filter_mset (\<lambda>r. local_date (received_at r) = c) (mset (receipts s))
     \<and> sorted (map received_at (select_range (receipts s) (startOf_day c) (endOf_day c)))"
proof -
  have v: "valid_date c" using assms by (rule parse_DDMMYY_valid)
  have "mset (select_range (receipts s) (startOf_day c) (endOf_day c)) =
       filter_mset (\<lambda>r. local_date (received_at r) = c) (mset (receipts s))"
    unfolding select_range_mset
    by (rule filter_mset_cong) (simp_all add: local_date_iff [OF v])
  then show ?thesis by (simp add: select_range_sorted)
qed

text \<open>The header has a parenthesis with no backslash before it, whatever the key and
  the count: the one the template writes after \<open>* \<close>.\<close>

lemma has_bare_paren_after_space:
  "has_bare (CHR ''('') (xs @ '' ('' @ ys)"
proof (induction xs rule: induct_list012)
  case 1
  show ?case by (cases ys) (simp_all add: backslash_def)
next
  case (2 x)
  show ?case by (cases ys) (simp_all add: backslash_def)
next
  case (3 x y zs)
  then show ?case by simp
qed

lemma receipts_header_has_bare_paren:
  "has_bare (CHR ''('') (receipts_header_text dateStr n)"
proof -
  have "receipts_header_text dateStr n =
      ([CHR 0xF0, CHR 0x9F, CHR 0xA7, CHR 0xBE] @ '' *Receipts for '' @ dateStr @ ''*'')
        @ '' ('' @ (String_int (int n) @ '' found):'')"
    by (simp add: receipts_header_text_def)
  then show ?thesis by (simp only: has_bare_paren_after_space)
qed

text \<open>When Telegram refuses the header, whatever its count, the handler replays no
  receipt: the header is awaited inside the \<open>try\<close>, before the loop.\<close>

lemma header_refused_never_replays:
  assumes "\<forall>n. \<not> tg_ok io (Reply (ReceiptsHeader dateStr n))"
  shows "ReplyWithPhoto f c m \<notin> set (calls_of (on_receipt_date OWNER_ID io from_id dateStr s))"
  using assms
  by (simp add: on_receipt_date_def isOwner_def calls_of_def Let_def split: option.splits)

text \<open>
  C2. The date-detail handler selects the receipts of the day but does not replay them.
  With two receipts stored on 5 January 2024 (Yangon time) and one on another day, the key
  05/01/24 selects the two, in ascending order; the header written for them has a
  parenthesis that is not escaped; and with that header refused, the handler logs, sends
  the error message and ends without a single \<open>replyWithPhoto\<close>.
\<close>

theorem date_detail_header_refused:
  "select_range (receipts three_receipts) (startOf_day (2024, 1, 5)) (endOf_day (2024, 1, 5)) =
     [row_at t_2024_01_05_10h, row_at (t_2024_01_05_10h + 5)]
   \<and> has_bare (CHR ''('') (receipts_header_text ''05/01/24'' 2)
   \<and> on_receipt_date 1 io_header_refused 1 ''05/01/24'' three_receipts =
       (Completed,
        [AnswerCbQuery ''05/01/24'', SelectRange (Some 1704389400000) (Some 1704475799999),
         Reply (ReceiptsHeader ''05/01/24'' 2),
         LogError ErrorFetchingReceiptsByDate, Reply ErrorFetchingReceipts],
        three_receipts)"
proof -
  have h1: "parse_DDMMYY ''05/01/24'' = Some (2024, 1, 5)" by code_simp
  have lo: "startOf_day (2024, 1, 5) = 1704389400000" by code_simp
  have hi: "endOf_day (2024, 1, 5) = 1704475799999" by code_simp
  have sel: "select_range (receipts three_receipts) 1704389400000 1704475799999 =
      [row_at t_2024_01_05_10h, row_at (t_2024_01_05_10h + 5)]"
    by (simp add: select_range_def three_receipts_def row_at_def t_2024_01_05_10h_def)
  have a: "select_range (receipts three_receipts) (startOf_day (2024, 1, 5))
      (endOf_day (2024, 1, 5)) = [row_at t_2024_01_05_10h, row_at (t_2024_01_05_10h + 5)]"
    unfolding lo hi by (rule sel)
  have b: "has_bare (CHR ''('') (receipts_header_text ''05/01/24'' 2)"
    by (rule receipts_header_has_bare_paren)
  have c: "on_receipt_date 1 io_header_refused 1 ''05/01/24'' three_receipts =
       (Completed,
        [AnswerCbQuery ''05/01/24'', SelectRange (Some 1704389400000) (Some 1704475799999),
         Reply (ReceiptsHeader ''05/01/24'' 2),
         LogError ErrorFetchingReceiptsByDate, Reply ErrorFetchingReceipts],
        three_receipts)"
    unfolding on_receipt_date_def isOwner_def Let_def
    by (simp add: h1 lo hi sel sent_def tg_ok_def io_header_refused_def)
  from a b c show ?thesis by blast
qed

section \<open>Escaping\<close>

lemma escapeMarkdown_JStr: "escapeMarkdown (JStr s) = Inr (replace_class md_class s)"
  by (cases s) (simp_all add: escapeMarkdown_def)

lemma escape_text_eq: "escape_text s = replace_class md_class s"
  by (simp add: escape_text_def escapeMarkdown_JStr)

lemma md_class_reserved: "md_class = mdv2_reserved"
  by (simp add: md_class_def mdv2_reserved_def)

lemma backslash_in_md_class: "backslash \<in> set md_class"
  by (simp add: md_class_def)

lemma mdv2_safe_replace_class: "mdv2_safe (replace_class md_class s)"
proof (induction s)
  case Nil
  show ?case by simp
next
  case (Cons c cs)
  show ?case
  proof (cases "c \<in> set md_class")
    case True
    then show ?thesis using Cons.IH by simp
  next
    case False
    then have ne: "c \<noteq> backslash" using backslash_in_md_class by auto
    from False have nr: "c \<notin> set mdv2_reserved" by (simp add: md_class_reserved)
    show ?thesis
    proof (cases "replace_class md_class cs")
      case Nil
      then show ?thesis using False nr by simp
    next
      case (Cons d ds)
      then show ?thesis using False nr ne Cons.IH by simp
    qed
  qed
qed

text \<open>
  The escaping function of \<open>src/bot.js\<close> returns, for every string, a text that is safe for
  MarkdownV2: no reserved character is left without its backslash.
\<close>

theorem escapeMarkdown_safe:
  "escapeMarkdown (JStr s) = Inr (replace_class md_class s)
   \<and> mdv2_safe (replace_class md_class s)"
  by (simp add: escapeMarkdown_JStr mdv2_safe_replace_class)

text \<open>
  C1. The escaping function of \<open>src/unnamed/part_001\<close> leaves the square brackets out of
  its character class: it returns the text \<open>[\<close> as it is, a reserved character of
  MarkdownV2 with no backslash before it, where the function of \<open>src/bot.js\<close> returns it
  escaped.
\<close>

theorem escapeMarkdown_part001_bracket:
  "escapeMarkdown_part001 (JStr ''['') = Inr ''[''
   \<and> \<not> mdv2_safe ''[''
   \<and> escapeMarkdown (JStr ''['') = Inr [backslash, CHR ''['']"
  by (simp add: escapeMarkdown_part001_def escapeMarkdown_def md_class_part001_def md_class_def
      mdv2_reserved_def backslash_def backtick_def)

text \<open>
  C9. Given \<open>null\<close>, \<open>undefined\<close> or the empty string, the escaping function (of either
  file) returns the empty string; it does not throw.
\<close>

theorem escapeMarkdown_of_nothing:
  "escapeMarkdown JNull = Inr [] \<and> escapeMarkdown JUndefined = Inr []
   \<and> escapeMarkdown (JStr []) = Inr []
   \<and> escapeMarkdown_part001 JNull = Inr [] \<and> escapeMarkdown_part001 JUndefined = Inr []
   \<and> escapeMarkdown_part001 (JStr []) = Inr []"
  by (simp add: escapeMarkdown_def escapeMarkdown_part001_def)

section \<open>The connection store\<close>

text \<open>
  C4. In \<open>src/bot.js\<close>, when the write of \<open>saveConnection(groupId)\<close> fails (the query
  resolves with an error, or throws), the function returns \<open>false\<close> and leaves the state, the
  variable \<open>connectedGroupId\<close> included, as it was; whenever a call changes the variable,
  the write succeeded, the call returns \<open>true\<close> and the variable holds the new group id.
\<close>

theorem saveConnection_write_failure:
  "(db io \<noteq> DbOk \<longrightarrow>
      fst (saveConnection io groupId s) = False \<and> snd (snd (saveConnection io groupId s)) = s)
   \<and> (connectedGroupId (snd (snd (saveConnection io groupId s))) \<noteq> connectedGroupId s \<longrightarrow>
      db io = DbOk \<and> fst (saveConnection io groupId s) = True
      \<and> connectedGroupId (snd (snd (saveConnection io groupId s))) = groupId)"
  by (cases "db io") (simp_all add: saveConnection_def)

theorem saveConnection_write_failure_witness:
  "db io_db_error \<noteq> DbOk
   \<and> fst (saveConnection io_db_error None connected_bot) = False
   \<and> snd (snd (saveConnection io_db_error None connected_bot)) = connected_bot
   \<and> connectedGroupId (snd (snd (saveConnection io_ok None connected_bot)))
        \<noteq> connectedGroupId connected_bot
   \<and> db io_ok = DbOk \<and> fst (saveConnection io_ok None connected_bot) = True"
proof -
  have h1: "db io_db_error \<noteq> DbOk" by (simp add: io_db_error_def)
  have h2: "connectedGroupId (snd (snd (saveConnection io_ok None connected_bot)))
        \<noteq> connectedGroupId connected_bot"
    by (simp add: saveConnection_def io_ok_def connected_bot_def)
  from saveConnection_write_failure [of io_db_error None connected_bot]
    saveConnection_write_failure [of io_ok None connected_bot] h1 h2
  show ?thesis by blast
qed

section \<open>The owner check\<close>

text \<open>
  C5. A command from a sender whose id is not the owner's changes nothing and is not
  answered: in \<open>src/bot.js\<close> the handlers behind \<open>isOwner\<close> (\<open>/connectgp\<close>, \<open>/disconnect\<close>,
  \<open>/help\<close>, \<open>/receipt\<close> and the date button) and in \<open>part_000\<close> \<open>/connectgp\<close> and
  \<open>/disconnect\<close> make no call and leave the state as it was. \<open>/start\<close>, open to everyone,
  leaves the state as it was and sends the greeting only.
\<close>

theorem non_owner_command_ignored:
  assumes "from_id \<noteq> OWNER_ID"
  shows "on_connectgp OWNER_ID io from_id text s = (Completed, [], s)
     \<and> on_disconnect OWNER_ID io from_id s = (Completed, [], s)
     \<and> on_help OWNER_ID io from_id s = (Completed, [], s)
     \<and> on_receipt OWNER_ID io from_id s = (Completed, [], s)
     \<and> on_receipt_date OWNER_ID io from_id dateStr s = (Completed, [], s)
     \<and> on_connectgp_part000 OWNER_ID io from_id text fs = (Completed, [], fs)
     \<and> on_disconnect_part000 OWNER_ID io from_id fs = (Completed, [], fs)
     \<and> calls_of (on_start io s) = [Reply Greeting] \<and> state_of (on_start io s) = s"
  using assms
  by (simp add: on_connectgp_def on_disconnect_def on_help_def on_receipt_def
      on_receipt_date_def on_connectgp_part000_def on_disconnect_part000_def on_start_def
      isOwner_def calls_of_def state_of_def)

theorem non_owner_command_ignored_witness:
  "(2::int) \<noteq> 1
   \<and> on_connectgp 1 io_ok 2 ''/connectgp -200'' connected_bot = (Completed, [], connected_bot)
   \<and> on_disconnect 1 io_ok 2 connected_bot = (Completed, [], connected_bot)
   \<and> on_disconnect_part000 1 io_ok 2 connected_file_bot = (Completed, [], connected_file_bot)"
proof -
  have h: "(2::int) \<noteq> 1" by simp
  from non_owner_command_ignored [OF h, of io_ok "''/connectgp -200''" connected_bot
      "''05/01/24''" connected_file_bot] h
  show ?thesis by blast
qed

section \<open>The photo handler\<close>

text \<open>
  C7. In \<open>src/bot.js\<close>, with the bot connected, a photo event whose insert into \<open>receipts\<close>
  fails is answered with the error message and ends there: the insert is the only thing
  tried before it, no photo goes to the group, and nothing is stored.
\<close>

theorem persistence_failure_aborts:
  assumes "truthy (connectedGroupId s)" and "msg_photo msg \<noteq> []" and "db io \<noteq> DbOk"
  shows "calls_of (on_photo io msg s) =
           [Insert (receipt_row msg (now io)), LogError ErrorSavingReceipt, Reply ErrorProcessing]
     \<and> (\<forall>g p c m. SendPhoto g p c m \<notin> set (calls_of (on_photo io msg s)))
     \<and> state_of (on_photo io msg s) = s"
  using assms by (simp add: on_photo_def calls_of_def state_of_def Let_def)

theorem persistence_failure_aborts_witness:
  "truthy (connectedGroupId connected_bot) \<and> msg_photo photo_of_alice \<noteq> []
   \<and> db io_db_error \<noteq> DbOk
   \<and> calls_of (on_photo io_db_error photo_of_alice connected_bot) =
        [Insert (receipt_row photo_of_alice (now io_db_error)), LogError ErrorSavingReceipt,
         Reply ErrorProcessing]
   \<and> state_of (on_photo io_db_error photo_of_alice connected_bot) = connected_bot"
proof -
  have h1: "truthy (connectedGroupId connected_bot)"
    by (simp add: truthy_def connected_bot_def)
  have h2: "msg_photo photo_of_alice \<noteq> []" by (simp add: photo_of_alice_def)
  have h3: "db io_db_error \<noteq> DbOk" by (simp add: io_db_error_def)
  from persistence_failure_aborts [OF h1 h2 h3] h1 h2 h3 show ?thesis by blast
qed

text \<open>
  C10. In \<open>src/bot.js\<close>, with the bot connected, when the insert succeeds and sending the
  photo to the group fails, the failure is only logged: the stored row stays in \<open>receipts\<close>
  and no reply at all, neither the acknowledgement nor an error message, goes to the
  sender.
\<close>

theorem forward_failure_is_silent:
  assumes "truthy (connectedGroupId s)" and "msg_photo msg \<noteq> []" and "db io = DbOk"
    and "\<not> tg_ok io (forward_photo (connectedGroupId s) msg (now io))"
  shows "calls_of (on_photo io msg s) =
           [Insert (receipt_row msg (now io)), forward_photo (connectedGroupId s) msg (now io),
            LogError ErrorForwardingPhoto]
     \<and> receipts (state_of (on_photo io msg s)) = receipts s @ [receipt_row msg (now io)]
     \<and> (\<forall>t. Reply t \<notin> set (calls_of (on_photo io msg s)))"
  using assms
  by (simp add: on_photo_def calls_of_def state_of_def Let_def forward_photo_def)

theorem forward_failure_is_silent_witness:
  "truthy (connectedGroupId connected_bot) \<and> msg_photo photo_of_alice \<noteq> []
   \<and> db io_group_rejects = DbOk
   \<and> \<not> tg_ok io_group_rejects
         (forward_photo (connectedGroupId connected_bot) photo_of_alice (now io_group_rejects))
   \<and> receipts (state_of (on_photo io_group_rejects photo_of_alice connected_bot)) =
        receipts connected_bot @ [receipt_row photo_of_alice (now io_group_rejects)]
   \<and> (\<forall>t. Reply t \<notin> set (calls_of (on_photo io_group_rejects photo_of_alice connected_bot)))"
proof -
  have h1: "truthy (connectedGroupId connected_bot)"
    by (simp add: truthy_def connected_bot_def)
  have h2: "msg_photo photo_of_alice \<noteq> []" by (simp add: photo_of_alice_def)
  have h3: "db io_group_rejects = DbOk" by (simp add: io_group_rejects_def)
  have h4: "\<not> tg_ok io_group_rejects
         (forward_photo (connectedGroupId connected_bot) photo_of_alice (now io_group_rejects))"
    by (simp add: tg_ok_def io_group_rejects_def connected_bot_def)
  from forward_failure_is_silent [OF h1 h2 h3 h4] h1 h2 h3 h4 show ?thesis by blast
qed

text \<open>
  C8, as the claim states it, fails on \<open>part_001\<close>: connected, with every call succeeding,
  its photo handler stores nothing, answers the sender first and sends the photo to the
  group after that.
\<close>

theorem part001_acknowledges_before_forwarding:
  "on_photo_part001 io_ok photo_of_alice connected_file_bot =
     (Completed,
      [Reply Ack,
       SendPhoto ''-100'' ''large'' (new_receipt_part001 alice t_2024_01_05_10h) MarkdownV2],
      connected_file_bot)"
  by (simp add: on_photo_part001_def forward_photo_part001_def io_ok_def photo_of_alice_def
      connected_file_bot_def truthy_def or_empty_def tg_ok_def)

text \<open>
  C8, amended. With the bot connected, the photo handler of \<open>src/bot.js\<close> first inserts the
  receipt; if that fails it answers with the error message and stops; otherwise it sends
  the photo to the group and, only once that has succeeded, acknowledges to the sender.
  The handler of \<open>part_001\<close> stores nothing: it acknowledges first and, once that has
  succeeded, sends the photo to the group.
\<close>

theorem photo_effects_in_order:
  assumes "truthy (connectedGroupId s)" and "truthy (connectedGroupId_f fs)"
    and "msg_photo msg \<noteq> []"
  shows "calls_of (on_photo io msg s) =
           Insert (receipt_row msg (now io)) #
           (if db io \<noteq> DbOk then [LogError ErrorSavingReceipt, Reply ErrorProcessing]
            else forward_photo (connectedGroupId s) msg (now io) #
              (if \<not> tg_ok io (forward_photo (connectedGroupId s) msg (now io))
               then [LogError ErrorForwardingPhoto]
               else Reply Ack #
                 (if tg_ok io (Reply Ack) then [] else [LogError ErrorForwardingPhoto])))
     \<and> receipts (state_of (on_photo io msg s)) =
           (if db io \<noteq> DbOk then receipts s else receipts s @ [receipt_row msg (now io)])
     \<and> calls_of (on_photo_part001 io msg fs) =
           Reply Ack #
           (if \<not> tg_ok io (Reply Ack) then [LogError ErrorHandlingPhoto]
            else forward_photo_part001 (connectedGroupId_f fs) msg (now io) #
              (if tg_ok io (forward_photo_part001 (connectedGroupId_f fs) msg (now io)) then []
               else [LogError ErrorHandlingPhoto]))
     \<and> state_of (on_photo_part001 io msg fs) = fs"
  using assms
  by (simp add: on_photo_def on_photo_part001_def calls_of_def state_of_def Let_def)

theorem photo_effects_in_order_witness:
  "truthy (connectedGroupId connected_bot) \<and> truthy (connectedGroupId_f connected_file_bot)
   \<and> msg_photo photo_of_alice \<noteq> []
   \<and> calls_of (on_photo io_ok photo_of_alice connected_bot) =
        [Insert (receipt_row photo_of_alice t_2024_01_05_10h),
         forward_photo (Some ''-100'') photo_of_alice t_2024_01_05_10h, Reply Ack]
   \<and> calls_of (on_photo_part001 io_ok photo_of_alice connected_file_bot) =
        [Reply Ack, forward_photo_part001 (Some ''-100'') photo_of_alice t_2024_01_05_10h]"
proof -
  have h1: "truthy (connectedGroupId connected_bot)"
    by (simp add: truthy_def connected_bot_def)
  have h2: "truthy (connectedGroupId_f connected_file_bot)"
    by (simp add: truthy_def connected_file_bot_def)
  have h3: "msg_photo photo_of_alice \<noteq> []" by (simp add: photo_of_alice_def)
  have ok: "tg_ok io_ok c" for c by (simp add: tg_ok_def io_ok_def)
  have e: "db io_ok = DbOk" "now io_ok = t_2024_01_05_10h"
    "connectedGroupId connected_bot = Some ''-100''"
    "connectedGroupId_f connected_file_bot = Some ''-100''"
    by (simp_all add: io_ok_def connected_bot_def connected_file_bot_def)
  from photo_effects_in_order [OF h1 h2 h3, of io_ok] h1 h2 h3 show ?thesis
    by (simp add: ok e)
qed

section \<open>Disconnecting\<close>

lemma on_receipt_state: "state_of (on_receipt OWNER_ID io from_id s) = s"
  by (simp add: on_receipt_def isOwner_def state_of_def Let_def)

lemma on_receipt_date_state: "state_of (on_receipt_date OWNER_ID io from_id dateStr s) = s"
  by (simp add: on_receipt_date_def isOwner_def state_of_def Let_def
      split: option.splits prod.splits bool.splits)

lemma on_photo_disconnected:
  "connectedGroupId s = None \<Longrightarrow>
   on_photo io msg s = (sent io (Reply NotConnected), [Reply NotConnected], s)"
  by (simp add: on_photo_def truthy_def)

lemma handle_keeps_disconnected:
  assumes "connectedGroupId s = None" and "\<not> connects OWNER_ID (io, u)"
  shows "connectedGroupId (state_of (handle OWNER_ID io u s)) = None"
proof (cases u)
  case (Connectgp sender line)
  with assms show ?thesis
    by (cases "db io")
      (auto simp: on_connectgp_def isOwner_def saveConnection_def state_of_def Let_def)
next
  case (Disconnect sender)
  with assms show ?thesis
    by (cases "db io")
      (auto simp: on_disconnect_def isOwner_def saveConnection_def state_of_def Let_def)
next
  case (Help sender)
  with assms show ?thesis by (simp add: on_help_def isOwner_def state_of_def)
next
  case (ReceiptCommand sender)
  with assms show ?thesis by (simp add: on_receipt_state)
next
  case (ReceiptDate sender dateStr)
  with assms show ?thesis by (simp add: on_receipt_date_state)
next
  case Start
  with assms show ?thesis by (simp add: on_start_def state_of_def)
next
  case (Photo msg)
  with assms show ?thesis by (simp add: on_photo_disconnected state_of_def)
qed

lemma run_keeps_disconnected:
  "connectedGroupId s = None \<Longrightarrow> \<forall>e \<in> set evs. \<not> connects OWNER_ID e \<Longrightarrow>
   connectedGroupId (run OWNER_ID evs s) = None"
proof (induction evs arbitrary: s)
  case Nil
  then show ?case by simp
next
  case (Cons e evs)
  obtain io u where e: "e = (io, u)" by (cases e) auto
  have "connectedGroupId (state_of (handle OWNER_ID io u s)) = None"
    using Cons.prems e by (intro handle_keeps_disconnected) auto
  then show ?case using Cons.IH Cons.prems e by simp
qed

text \<open>
  C6, as the claim states it, fails: when the owner's \<open>/disconnect\<close> calls
  \<open>saveConnection(null)\<close> and the write fails, the variable keeps the group, and the next
  photo is stored, forwarded to that group and acknowledged.
\<close>

theorem failed_disconnect_keeps_forwarding:
  "calls_of (on_disconnect 1 io_db_error 1 connected_bot) =
     [Upsert None, LogError ErrorSavingConnection, Reply UpdateFailed]
   \<and> calls_of (on_photo io_ok photo_of_alice
        (state_of (on_disconnect 1 io_db_error 1 connected_bot))) =
     [Insert (receipt_row photo_of_alice t_2024_01_05_10h),
      SendPhoto ''-100'' ''large''
        (new_receipt alice t_2024_01_05_10h (Some ''Premium'')) MarkdownV2,
      Reply Ack]"
  by (simp add: on_disconnect_def isOwner_def saveConnection_def io_db_error_def
      connected_bot_def calls_of_def state_of_def on_photo_def forward_photo_def io_ok_def
      photo_of_alice_def truthy_def or_empty_def tg_ok_def user_caption_def Let_def)

text \<open>
  C6, amended. After the owner's \<open>/disconnect\<close> whose \<open>saveConnection(null)\<close> is written,
  and after any further updates none of which is a \<open>saveConnection(groupId)\<close> that is
  written (\<open>/connectgp\<close> from the owner, with an argument, answered by the database), a
  photo event is answered with the not-connected reply, nothing is sent to a group and
  nothing is stored.
\<close>

theorem disconnect_stops_forwarding:
  assumes "db io0 = DbOk" and "\<forall>e \<in> set evs. \<not> connects OWNER_ID e"
  shows "on_photo io msg (run OWNER_ID evs (state_of (on_disconnect OWNER_ID io0 OWNER_ID s0))) =
     (sent io (Reply NotConnected), [Reply NotConnected],
      run OWNER_ID evs (state_of (on_disconnect OWNER_ID io0 OWNER_ID s0)))"
proof -
  have "connectedGroupId (state_of (on_disconnect OWNER_ID io0 OWNER_ID s0)) = None"
    using assms(1)
    by (simp add: on_disconnect_def isOwner_def saveConnection_def state_of_def Let_def)
  then have "connectedGroupId
      (run OWNER_ID evs (state_of (on_disconnect OWNER_ID io0 OWNER_ID s0))) = None"
    using assms(2) by (rule run_keeps_disconnected)
  then show ?thesis by (rule on_photo_disconnected)
qed

theorem disconnect_stops_forwarding_witness:
  "db io_ok = DbOk \<and> filter (connects 1) quiet_updates = []
   \<and> calls_of (on_photo io_ok photo_of_alice
        (run 1 quiet_updates (state_of (on_disconnect 1 io_ok 1 connected_bot)))) =
       [Reply NotConnected]"
proof -
  have h1: "db io_ok = DbOk" by (simp add: io_ok_def)
  have q: "filter (connects 1) quiet_updates = []"
    by (simp add: quiet_updates_def io_db_error_def command_args_def)
  then have h2: "\<forall>e \<in> set quiet_updates. \<not> connects 1 e"
    by (simp add: filter_empty_conv)
  from disconnect_stops_forwarding [OF h1 h2, of io_ok photo_of_alice connected_bot] h1 q
  show ?thesis by (simp add: calls_of_def)
qed

end
